theory Spec2Isabelle
  imports Main "HOL-Library.Word" "HOL-Library.Monad_Syntax"
begin

section \<open>The source wrapper: \<open>streams/source.go\<close>\<close>

text \<open>
  \<open>EventSourceConfig\<close> with the fields the functions below read. \<open>Cluster\<close> is a Go
  interface and the two handlers are Go function values: all three can be \<open>nil\<close>, which
  is \<open>None\<close> here. Go's \<open>int\<close> is modelled as \<open>int\<close>: the only arithmetic on it in this
  file is \<open>ReplicationFactor - 1\<close>, evaluated on a path where \<open>ReplicationFactor > 1\<close>,
  so it cannot wrap around.
\<close>

record ('cl, 'dh, 'th) EventSourceConfig =
  GroupId :: string
  Topic :: string
  StateStoreTopic :: string
  NumPartitions :: int
  ReplicationFactor :: int
  MinInSync :: int
  SourceCluster :: "'cl option"
  StateCluster :: "'cl option"
  CommitOffsets :: bool
  DeserializationErrorHandler :: "'dh option"
  TxnErrorHandler :: "'th option"

datatype EventSourceState = Healthy | Unhealthy

record ('cl, 'dh, 'th) Source =
  state :: EventSourceState
  config :: "('cl, 'dh, 'th) EventSourceConfig"

definition newSource :: "('cl, 'dh, 'th) EventSourceConfig \<Rightarrow> ('cl, 'dh, 'th) Source" where
  "newSource c = \<lparr>state = Healthy, config = c\<rparr>"

text \<open>\<open>return false\<close>; the line \<open>return s.config.CommitOffsets\<close> is commented out.\<close>

definition shouldMarkCommit :: "('cl, 'dh, 'th) Source \<Rightarrow> bool" where
  "shouldMarkCommit s = False"

text \<open>
  The package level defaults \<open>DefaultTxnErrorHandler\<close> and
  \<open>DefaultDeserializationErrorHandler\<close> are declared outside this file; they are the
  first argument of the two selectors.
\<close>

definition eosErrorHandler :: "'th \<Rightarrow> ('cl, 'dh, 'th) Source \<Rightarrow> 'th option" where
  "eosErrorHandler DefaultTxnErrorHandler s =
     (if TxnErrorHandler (config s) = None then Some DefaultTxnErrorHandler
      else TxnErrorHandler (config s))"

definition deserializationErrorHandler :: "'dh \<Rightarrow> ('cl, 'dh, 'th) Source \<Rightarrow> 'dh option" where
  "deserializationErrorHandler DefaultDeserializationErrorHandler s =
     (if TxnErrorHandler (config s) = None then Some DefaultDeserializationErrorHandler
      else DeserializationErrorHandler (config s))"

text \<open>\<open>fmt.Sprintf\<close> with \<open>%s\<close> verbs only, on string arguments, is concatenation.\<close>

definition CommitLogTopicNameForGroupId :: "('cl, 'dh, 'th) Source \<Rightarrow> string" where
  "CommitLogTopicNameForGroupId s = ''gkes_commit_log_'' @ GroupId (config s)"

definition StateStoreTopicName :: "('cl, 'dh, 'th) Source \<Rightarrow> string" where
  "StateStoreTopicName s =
     (if length (StateStoreTopic (config s)) > 0 then StateStoreTopic (config s)
      else ''gkes_change_log_'' @ Topic (config s) @ ''_'' @ GroupId (config s))"

definition stateCluster :: "('cl, 'dh, 'th) Source \<Rightarrow> 'cl option" where
  "stateCluster s =
     (if StateCluster (config s) = None then SourceCluster (config s)
      else StateCluster (config s))"

definition replicationFactorConfig :: "('cl, 'dh, 'th) Source \<Rightarrow> int" where
  "replicationFactorConfig source =
     (if ReplicationFactor (config source) \<le> 0 then 1
      else ReplicationFactor (config source))"

definition minInSyncConfig :: "('cl, 'dh, 'th) Source \<Rightarrow> int" where
  "minInSyncConfig source =
     (let factor = replicationFactorConfig source in
      if factor \<le> 1 then 1
      else if MinInSync (config source) \<ge> factor then ReplicationFactor (config source) - 1
      else MinInSync (config source))"

text \<open>A concrete configuration for the examples: every optional field unset.\<close>

definition exampleConfig :: "(string, nat, nat) EventSourceConfig" where
  "exampleConfig =
     \<lparr>GroupId = ''grp'', Topic = ''orders'', StateStoreTopic = '''', NumPartitions = 4,
      ReplicationFactor = 3, MinInSync = 0, SourceCluster = Some ''east'',
      StateCluster = None, CommitOffsets = True,
      DeserializationErrorHandler = None, TxnErrorHandler = None\<rparr>"

section \<open>The partition worker: \<open>streams/partition_worker.go\<close>\<close>

subsection \<open>Data\<close>

text \<open>
  \<open>int64\<close> is a 64 bit word read as two's complement: \<open>+\<close> wraps around and the
  comparisons of the source are comparisons of \<open>sint\<close>.
\<close>

type_synonym int64 = "64 word"

text \<open>\<open>kgo.Record\<close> of the Kafka client: the worker reads its \<open>Offset\<close> only.\<close>

record kgoRecord =
  Offset :: int64

datatype ExecutionState = Complete | Incomplete | Fatal | unknownType

text \<open>
  An interjection, as far as the worker's scheduling reads it: its \<open>callback\<close> field, a
  Go function value that may be nil. A callback is identified by a number, and invoking
  it appends that number to the worker's log of invoked callbacks.
\<close>

record interjection =
  callback :: "nat option"

text \<open>
  Modelled from the spec: the type \<open>EventContext\<close>, \<open>newEventContext\<close>,
  \<open>newInterjectionContext\<close> and \<open>Offset()\<close> are declared outside the two source files.
  The spec says that a context holds one of a Kafka record or an interjection pointer
  and exposes \<open>Offset()\<close>. The offset of an interjection context is left unspecified:
  \<open>forwardToEventSource\<close> only receives contexts made from records.
\<close>

datatype EventContext = RecordContext kgoRecord | InterjectionContext interjection

definition newEventContext :: "kgoRecord \<Rightarrow> EventContext" where
  "newEventContext r = RecordContext r"

definition newInterjectionContext :: "interjection \<Rightarrow> EventContext" where
  "newInterjectionContext ij = InterjectionContext ij"

fun ecOffset :: "EventContext \<Rightarrow> int64" where
  "ecOffset (RecordContext r) = Offset r"

text \<open>An \<open>AsyncJob\<close>: its context and what its finalizer returns when it is run.\<close>

record AsyncJob =
  ctx :: EventContext
  finalizer :: ExecutionState

text \<open>A producer of the pool is identified by a number; a nil producer is \<open>None\<close>.\<close>

type_synonym producerNode = nat

text \<open>
  The worker. A buffered channel is the list of the values it holds, oldest first, next
  to its capacity; \<open>maxPending\<close>, a channel of unit tokens, is the number of tokens it
  holds. \<open>revocationWaiter\<close> is the counter of the \<open>sync.WaitGroup\<close>. \<open>running\<close> is
  \<open>runStatus.Running()\<close>. The last four fields record what the worker does to its
  collaborators, in call order: the contexts passed to \<open>eosProducer.addEventContext\<close>,
  to \<open>ec.complete()\<close> and to the user's event handler, and the callbacks invoked. The
  lifecycle signals (\<open>stopSignal\<close>, \<open>revokedSignal\<close>, \<open>stopped\<close>) and \<open>ready\<close> play
  no part in the functions modelled here.
\<close>

record partitionWorker =
  running :: bool
  partitionInput :: "kgoRecord option list list"
  maxPending :: nat
  maxPendingCap :: nat
  interjectionInput :: "interjection list"
  eventInput :: "EventContext list"
  eventInputCap :: nat
  interjectionEventInput :: "EventContext list"
  asyncJobs :: "AsyncJob list"
  asyncJobsCap :: nat
  highestOffset :: int64
  revocationWaiter :: int
  admitted :: "EventContext list"
  completed :: "EventContext list"
  handled :: "EventContext list"
  callbacks :: "nat list"

text \<open>Go's integer division truncates towards zero.\<close>

definition goDiv :: "int \<Rightarrow> int \<Rightarrow> int" where
  "goDiv a b = sgn a * sgn b * (\<bar>a\<bar> div \<bar>b\<bar>)"

text \<open>
  \<open>newPartitionWorker\<close>, from the pool's \<open>maxPendingItems()\<close> and the configured
  \<open>EosConfig.MaxBatchSize\<close>: the channels are empty and \<open>highestOffset\<close> is -1.
  \<open>sak.Max\<close> is the larger of its two arguments. The goroutine started by the
  constructor is the dispatch loop, whose event branch is \<open>dispatchEvent\<close> below.
\<close>

definition newPartitionWorker :: "nat \<Rightarrow> int \<Rightarrow> partitionWorker" where
  "newPartitionWorker maxPendingItems MaxBatchSize =
     (let recordsInputSize = max (goDiv MaxBatchSize 10) 100;
          asyncSize = recordsInputSize * 4
      in \<lparr>running = True, partitionInput = [], maxPending = 0,
          maxPendingCap = maxPendingItems, interjectionInput = [], eventInput = [],
          eventInputCap = nat recordsInputSize, interjectionEventInput = [],
          asyncJobs = [], asyncJobsCap = nat asyncSize, highestOffset = - 1,
          revocationWaiter = 0, admitted = [], completed = [], handled = [],
          callbacks = []\<rparr>)"

subsection \<open>Channel operations and collaborators\<close>

text \<open>
  A function of the worker returns \<open>None\<close> when the goroutine running it cannot go on in
  the given state: a send on a full channel or a receive from an empty one. Otherwise
  it returns the state it leaves.
\<close>

definition isRevoked :: "partitionWorker \<Rightarrow> bool" where
  "isRevoked pw = (\<not> running pw)"

text \<open>
  Modelled from the spec: \<open>sak.RunStatus\<close> is declared outside the source files. Its
  \<open>Halt()\<close> moves the status to halted for good, after which \<open>Running()\<close> is false.
\<close>

definition revoke :: "partitionWorker \<Rightarrow> partitionWorker" where
  "revoke pw = pw\<lparr>running := False\<rparr>"

text \<open>\<open>pw.maxPending <- struct{}{}\<close> and \<open><-pw.maxPending\<close>.\<close>

definition acquireToken :: "partitionWorker \<Rightarrow> partitionWorker option" where
  "acquireToken pw =
     (if maxPending pw < maxPendingCap pw then Some (pw\<lparr>maxPending := maxPending pw + 1\<rparr>)
      else None)"

definition releaseToken :: "partitionWorker \<Rightarrow> partitionWorker option" where
  "releaseToken pw =
     (if 0 < maxPending pw then Some (pw\<lparr>maxPending := maxPending pw - 1\<rparr>) else None)"

text \<open>\<open>pw.eventInput <- ec\<close> and \<open>pw.interjectionEventInput <- ec\<close> (capacity 1).\<close>

definition sendEvent :: "EventContext \<Rightarrow> partitionWorker \<Rightarrow> partitionWorker option" where
  "sendEvent ec pw =
     (if length (eventInput pw) < eventInputCap pw
      then Some (pw\<lparr>eventInput := eventInput pw @ [ec]\<rparr>) else None)"

definition sendInterjectionEvent :: "EventContext \<Rightarrow> partitionWorker \<Rightarrow> partitionWorker option" where
  "sendInterjectionEvent ec pw =
     (if length (interjectionEventInput pw) < 1
      then Some (pw\<lparr>interjectionEventInput := interjectionEventInput pw @ [ec]\<rparr>) else None)"

text \<open>
  Modelled from the spec: \<open>eosProducerPool.addEventContext\<close> and
  \<open>EventContext.complete\<close> are declared outside the source files. The first hands the
  context to the producer pool, the second signals the pool that user processing is
  done; each is kept as an entry in the order of the calls, as is an invocation of
  \<open>inter.callback()\<close>.
\<close>

definition addEventContext :: "EventContext \<Rightarrow> partitionWorker \<Rightarrow> partitionWorker" where
  "addEventContext ec pw = pw\<lparr>admitted := admitted pw @ [ec]\<rparr>"

definition complete :: "EventContext \<Rightarrow> partitionWorker \<Rightarrow> partitionWorker" where
  "complete ec pw = pw\<lparr>completed := completed pw @ [ec]\<rparr>"

definition invokeCallback :: "nat \<Rightarrow> partitionWorker \<Rightarrow> partitionWorker" where
  "invokeCallback c pw = pw\<lparr>callbacks := callbacks pw @ [c]\<rparr>"

text \<open>\<open>revocationWaiter.Add(n)\<close>; \<open>Done()\<close> is \<open>Add(-1)\<close>.\<close>

definition waiterAdd :: "int \<Rightarrow> partitionWorker \<Rightarrow> partitionWorker" where
  "waiterAdd n pw = pw\<lparr>revocationWaiter := revocationWaiter pw + n\<rparr>"

subsection \<open>The ingress side\<close>

text \<open>\<open>add\<close>: \<open>partitionInput\<close> has capacity 4.\<close>

definition add :: "kgoRecord option list \<Rightarrow> partitionWorker \<Rightarrow> partitionWorker option" where
  "add records pw =
     (if isRevoked pw then Some pw
      else if length (partitionInput pw) < 4
        then Some (pw\<lparr>partitionInput := partitionInput pw @ [records]\<rparr>)
      else None)"

definition scheduleInterjection :: "interjection \<Rightarrow> partitionWorker \<Rightarrow> partitionWorker option" where
  "scheduleInterjection ij pw =
     (if isRevoked pw then
        (case callback ij of
           Some c \<Rightarrow> Some (invokeCallback c pw)
         | None \<Rightarrow> Some pw)
      else do {
        let pw1 = waiterAdd 1 pw;
        let ec = newInterjectionContext ij;
        pw2 \<leftarrow> acquireToken pw1;
        let pw3 = addEventContext ec pw2;
        sendInterjectionEvent ec pw3
      })"

text \<open>The non-blocking \<open>select\<close> with a \<open>default\<close> branch.\<close>

definition interleaveInterjection :: "partitionWorker \<Rightarrow> partitionWorker option" where
  "interleaveInterjection pw =
     (case interjectionInput pw of
        ij # rest \<Rightarrow> scheduleInterjection ij (pw\<lparr>interjectionInput := rest\<rparr>)
      | [] \<Rightarrow> Some pw)"

text \<open>
  The \<open>if\<close> of the loop body of \<open>scheduleTxnAndExecution\<close>, for one record; a nil
  record is \<open>None\<close>, and \<open>&&\<close> does not read the offset of a nil record.
\<close>

definition scheduleRecord :: "kgoRecord option \<Rightarrow> partitionWorker \<Rightarrow> partitionWorker option" where
  "scheduleRecord record pw =
     (case record of
        Some r \<Rightarrow>
          if sint (highestOffset pw) \<le> sint (Offset r) then do {
            let ec = newEventContext r;
            pw1 \<leftarrow> acquireToken pw;
            let pw2 = addEventContext ec pw1;
            sendEvent ec pw2
          } else Some (waiterAdd (- 1) pw)
      | None \<Rightarrow> Some (waiterAdd (- 1) pw))"

text \<open>The whole loop body, and the loop, when nothing else runs in between.\<close>

definition scheduleStep :: "kgoRecord option \<Rightarrow> partitionWorker \<Rightarrow> partitionWorker option" where
  "scheduleStep record pw = scheduleRecord record pw \<bind> interleaveInterjection"

fun scheduleLoop :: "kgoRecord option list \<Rightarrow> partitionWorker \<Rightarrow> partitionWorker option" where
  "scheduleLoop [] pw = Some pw"
| "scheduleLoop (record # records) pw = scheduleStep record pw \<bind> scheduleLoop records"

definition scheduleTxnAndExecution ::
  "kgoRecord option list \<Rightarrow> partitionWorker \<Rightarrow> partitionWorker option" where
  "scheduleTxnAndExecution records pw =
     (if isRevoked pw then Some pw
      else scheduleLoop records (waiterAdd (int (length records)) pw))"

subsection \<open>The dispatch side\<close>

definition processAsyncJob :: "AsyncJob \<Rightarrow> partitionWorker \<Rightarrow> partitionWorker option" where
  "processAsyncJob job pw =
     (if finalizer job = Complete then releaseToken (complete (ctx job) pw) else Some pw)"

text \<open>
  \<open>assignProducer\<close> loops on a \<open>select\<close> between the context's \<open>producerChan\<close> and
  \<open>asyncJobs\<close>. Which branch fires is the environment's choice: \<open>n\<close> is the number of
  async jobs taken before the pool delivers on \<open>producerChan\<close>, and the delivered
  producer is an argument of the caller. The pool's contract (it delivers exactly once
  to every context) is what ends the loop.
\<close>

fun assignProducer :: "nat \<Rightarrow> partitionWorker \<Rightarrow> partitionWorker option" where
  "assignProducer 0 pw = Some pw"
| "assignProducer (Suc n) pw =
     (case asyncJobs pw of
        job # rest \<Rightarrow> processAsyncJob job (pw\<lparr>asyncJobs := rest\<rparr>) \<bind> assignProducer n
      | [] \<Rightarrow> None)"

text \<open>
  \<open>forwardToEventSource\<close>: \<open>producer\<close> is what the pool delivers for \<open>ec\<close> and \<open>result\<close>
  is what \<open>eventSource.handleEvent(ec, record)\<close>, the user's handler, returns.
\<close>

definition forwardToEventSource ::
  "nat \<Rightarrow> producerNode option \<Rightarrow> ExecutionState \<Rightarrow> EventContext \<Rightarrow> partitionWorker
     \<Rightarrow> partitionWorker option" where
  "forwardToEventSource n producer result ec pw = do {
     pw1 \<leftarrow> assignProducer n pw;
     (case producer of
        None \<Rightarrow> releaseToken pw1
      | Some p \<Rightarrow>
          let offset = ecOffset ec;
              pw2 = pw1\<lparr>highestOffset := offset + 1\<rparr>;
              pw3 = pw2\<lparr>handled := handled pw2 @ [ec]\<rparr>
          in if result = Complete then releaseToken (complete ec pw3) else Some pw3)
   }"

definition handleEvent ::
  "nat \<Rightarrow> producerNode option \<Rightarrow> ExecutionState \<Rightarrow> EventContext \<Rightarrow> partitionWorker
     \<Rightarrow> (partitionWorker \<times> bool) option" where
  "handleEvent n producer result ec pw =
     map_option (\<lambda>pw'. (pw', True)) (forwardToEventSource n producer result ec pw)"

text \<open>The branch \<open>case ec := <-pw.eventInput: pw.handleEvent(ec)\<close> of the dispatch loop.\<close>

definition dispatchEvent ::
  "nat \<Rightarrow> producerNode option \<Rightarrow> ExecutionState \<Rightarrow> partitionWorker \<Rightarrow> partitionWorker option" where
  "dispatchEvent n producer result pw =
     (case eventInput pw of
        ec # rest \<Rightarrow> map_option fst (handleEvent n producer result ec (pw\<lparr>eventInput := rest\<rparr>))
      | [] \<Rightarrow> None)"

subsection \<open>The two loops together\<close>

text \<open>
  The ingress loop (\<open>pushRecords\<close>, which calls \<open>scheduleTxnAndExecution\<close>) and the
  dispatch loop (\<open>work\<close>, which calls \<open>handleEvent\<close>) are two goroutines, and
  \<open>highestOffset\<close> is read by the first and written by the second; \<open>add\<close> and
  \<open>revoke\<close> are called from a third. An execution of the worker is a sequence of their
  steps. The entry of \<open>scheduleTxnAndExecution\<close> is the guard and the \<open>Add\<close>: it gives
  the worker and the records that the loop goes through.
\<close>

definition scheduleTxnAndExecutionEntry ::
  "kgoRecord option list \<Rightarrow> partitionWorker \<Rightarrow> partitionWorker \<times> kgoRecord option list" where
  "scheduleTxnAndExecutionEntry records pw =
     (if isRevoked pw then (pw, [])
      else (waiterAdd (int (length records)) pw, records))"

text \<open>
  The steps. \<open>Offer\<close>: the consumer calls \<open>add\<close>. \<open>Receive\<close>: \<open>pushRecords\<close> takes a
  batch from \<open>partitionInput\<close> and, if the worker is not revoked, enters
  \<open>scheduleTxnAndExecution\<close>. \<open>Interject\<close>: \<open>pushRecords\<close> takes an interjection from
  \<open>interjectionInput\<close> and calls \<open>scheduleInterjection\<close>. \<open>Schedule\<close>: one turn of the
  loop of \<open>scheduleTxnAndExecution\<close>. \<open>Dispatch\<close>: the dispatch loop takes a context from
  \<open>eventInput\<close> and handles it; its arguments are those of \<open>handleEvent\<close>. \<open>Halt\<close>:
  \<open>revoke\<close>. The state is the worker together with the records that the call of
  \<open>scheduleTxnAndExecution\<close> in progress has not inspected yet; \<open>pushRecords\<close> is back at
  its \<open>select\<close> when there are none. A step that cannot be taken in a state, because it
  would block or because the goroutine is elsewhere, gives \<open>None\<close>; a step is taken as a
  whole, so a turn of the loop is taken when its sends can proceed. The other branches
  of the dispatch loop (\<open>handleInterjection\<close>, \<open>processAsyncJob\<close> and the lifecycle
  signals) are not steps here: they neither read nor write \<open>highestOffset\<close> or
  \<open>eventInput\<close> and create no context.
\<close>

datatype action =
    Offer "kgoRecord option list"
  | Receive
  | Interject
  | Schedule
  | Dispatch nat "producerNode option" ExecutionState
  | Halt

type_synonym system = "partitionWorker \<times> kgoRecord option list"

fun step :: "action \<Rightarrow> system \<Rightarrow> system option" where
  "step (Offer records) (pw, pending) = map_option (\<lambda>pw'. (pw', pending)) (add records pw)"
| "step Receive (pw, pending) =
     (case (partitionInput pw, pending) of
        (records # rest, []) \<Rightarrow>
          (let pw1 = pw\<lparr>partitionInput := rest\<rparr>
           in if \<not> isRevoked pw1 then Some (scheduleTxnAndExecutionEntry records pw1)
              else Some (pw1, []))
      | _ \<Rightarrow> None)"
| "step Interject (pw, pending) =
     (case (interjectionInput pw, pending) of
        (ij # rest, []) \<Rightarrow>
          map_option (\<lambda>pw'. (pw', [])) (scheduleInterjection ij (pw\<lparr>interjectionInput := rest\<rparr>))
      | _ \<Rightarrow> None)"
| "step Schedule (pw, pending) =
     (case pending of
        record # rest \<Rightarrow> map_option (\<lambda>pw'. (pw', rest)) (scheduleStep record pw)
      | [] \<Rightarrow> None)"
| "step (Dispatch n producer result) (pw, pending) =
     map_option (\<lambda>pw'. (pw', pending)) (dispatchEvent n producer result pw)"
| "step Halt (pw, pending) = Some (revoke pw, pending)"

fun run :: "action list \<Rightarrow> system \<Rightarrow> system option" where
  "run [] s = Some s"
| "run (a # as) s = step a s \<bind> run as"









text \<open>The offsets of the contexts handed to the producer pool, in admission order.\<close>

definition admittedOffsets :: "partitionWorker \<Rightarrow> int64 list" where
  "admittedOffsets pw = map ecOffset (admitted pw)"

text \<open>The batch of the duplicate suppression scenario and a batch with a redelivered record.\<close>

definition duplicateBatch :: "kgoRecord option list" where
  "duplicateBatch =
     [Some \<lparr>Offset = 5\<rparr>, Some \<lparr>Offset = 6\<rparr>, Some \<lparr>Offset = 7\<rparr>,
      Some \<lparr>Offset = 5\<rparr>, Some \<lparr>Offset = 6\<rparr>, Some \<lparr>Offset = 7\<rparr>]"


text \<open>
  The executions of the duplicate suppression scenario, made of the six turns of the loop
  and of the dispatches of the contexts, in which no second copy is admitted. \<open>i\<close>
  counts the records inspected so far, \<open>j\<close> the contexts taken from \<open>eventInput\<close> so
  far, and \<open>k\<close> is the number of the last context that got a producer, 0 when none did
  yet. The contexts are taken in the order 5, 6, 7, so after \<open>k\<close> the value of
  \<open>highestOffset\<close> is above the offsets of the first \<open>k\<close> records. The record inspected
  next is a second copy when \<open>3 \<le> i\<close>, and then \<open>i - 3 < k\<close> says that the context of
  its first copy, or of a later record, has been handled with a producer that is not
  nil. A context is taken only once its record has been inspected, and a fresh worker
  has no async job to take meanwhile; the execution ends when the six records have been
  inspected and the three contexts taken.
\<close>

fun copiesAfterOriginals :: "nat \<Rightarrow> nat \<Rightarrow> nat \<Rightarrow> action list \<Rightarrow> bool" where
  "copiesAfterOriginals i j k [] = (i = 6 \<and> j = 3)"
| "copiesAfterOriginals i j k (Schedule # as) =
     (i < 6 \<and> (3 \<le> i \<longrightarrow> i < k + 3) \<and> copiesAfterOriginals (Suc i) j k as)"
| "copiesAfterOriginals i j k (Dispatch n producer result # as) =
     (n = 0 \<and> j < i \<and> j < 3 \<and>
      copiesAfterOriginals i (Suc j) (if producer = None then k else Suc j) as)"
| "copiesAfterOriginals i j k (a # as) = False"

text \<open>The steps of the loop of \<open>scheduleTxnAndExecution\<close> and of the dispatch loop.\<close>

fun isLoopOrDispatch :: "action \<Rightarrow> bool" where
  "isLoopOrDispatch Schedule = True"
| "isLoopOrDispatch (Dispatch n producer result) = True"
| "isLoopOrDispatch a = False"

text \<open>
  One execution of the scenario of that kind: the three records are inspected, the first
  context gets a producer, the second gets none, the second copy of 5 is inspected, the
  third context gets a producer and the second copies of 6 and 7 are inspected.
\<close>

definition exampleExecution :: "action list" where
  "exampleExecution =
     [Schedule, Schedule, Schedule, Dispatch 0 (Some 1) Incomplete,
      Dispatch 0 None Incomplete, Schedule, Dispatch 0 (Some 1) Incomplete,
      Schedule, Schedule]"

text \<open>
  The state of the scenario at the point \<open>i\<close>, \<open>j\<close>, \<open>k\<close> of such an execution, on a
  worker of \<open>m\<close> pending items.
\<close>

definition originals :: "EventContext list" where
  "originals =
     [RecordContext \<lparr>Offset = 5\<rparr>, RecordContext \<lparr>Offset = 6\<rparr>, RecordContext \<lparr>Offset = 7\<rparr>]"

definition scenario :: "nat \<Rightarrow> nat \<Rightarrow> nat \<Rightarrow> nat \<Rightarrow> system \<Rightarrow> bool" where
  "scenario m i j k s =
     (case s of (pw, pending) \<Rightarrow>
        i \<le> 6 \<and> j \<le> i \<and> j \<le> 3 \<and> k \<le> j \<and> pending = drop i duplicateBatch \<and>
        admitted pw = take i originals \<and>
        eventInput pw = drop j (take i originals) \<and>
        sint (highestOffset pw) = (if k = 0 then - 1 else 5 + int k) \<and> (i = 6 \<longrightarrow> k = 3) \<and>
        revocationWaiter pw = 6 - int (i - 3) \<and>
        interjectionInput pw = [] \<and> asyncJobs pw = [] \<and>
        min i 3 - j \<le> maxPending pw \<and> maxPending pw \<le> min i 3 \<and>
        maxPendingCap pw = m \<and> 100 \<le> eventInputCap pw)"

text \<open>
  A fresh worker after the record of offset 5 was scheduled and its context was received
  from \<open>eventInput\<close> by the dispatch loop: one token is held.
\<close>

definition workerHoldingOne :: partitionWorker where
  "workerHoldingOne =
     (newPartitionWorker 8 100)\<lparr>maxPending := 1, revocationWaiter := 1,
        admitted := [RecordContext \<lparr>Offset = 5\<rparr>]\<rparr>"

text \<open>
  The same worker after the dispatch loop handled that context with a producer and the
  handler returned \<open>Incomplete\<close>: no context is waiting, \<open>highestOffset\<close> is 6 and the
  token is still held.
\<close>

definition workerAtSix :: partitionWorker where
  "workerAtSix =
     workerHoldingOne\<lparr>highestOffset := 6, handled := [RecordContext \<lparr>Offset = 5\<rparr>]\<rparr>"






section \<open>Properties of the source wrapper\<close>

text \<open>
  Claim C5. \<open>deserializationErrorHandler\<close> tests \<open>config.TxnErrorHandler\<close>, not
  \<open>config.DeserializationErrorHandler\<close>: it returns the default handler when
  \<open>TxnErrorHandler\<close> is nil, and otherwise returns \<open>config.DeserializationErrorHandler\<close>
  as it is, nil included.
\<close>

theorem deserializationErrorHandler_selects_on_txn:
  "(TxnErrorHandler (config s) = None \<longrightarrow> deserializationErrorHandler d s = Some d) \<and>
   (TxnErrorHandler (config s) \<noteq> None \<longrightarrow>
      deserializationErrorHandler d s = DeserializationErrorHandler (config s))"
  by (simp add: deserializationErrorHandler_def)

theorem deserializationErrorHandler_selects_on_txn_witness:
  "deserializationErrorHandler (0::nat)
     (newSource (exampleConfig\<lparr>DeserializationErrorHandler := Some 7\<rparr>)) = Some 0 \<and>
   deserializationErrorHandler (0::nat)
     (newSource (exampleConfig\<lparr>TxnErrorHandler := Some 5\<rparr>)) = None"
  using deserializationErrorHandler_selects_on_txn
          [of "newSource (exampleConfig\<lparr>DeserializationErrorHandler := Some 7\<rparr>)" 0]
        deserializationErrorHandler_selects_on_txn
          [of "newSource (exampleConfig\<lparr>TxnErrorHandler := Some 5\<rparr>)" 0]
  by (simp add: newSource_def exampleConfig_def)

text \<open>
  Claim C6. \<open>shouldMarkCommit\<close> returns false for every source, whatever
  \<open>config.CommitOffsets\<close> is.
\<close>

theorem shouldMarkCommit_always_false:
  "shouldMarkCommit s = False \<and>
   shouldMarkCommit (s\<lparr>config := (config s)\<lparr>CommitOffsets := True\<rparr>\<rparr>) = False"
  by (simp add: shouldMarkCommit_def)

text \<open>
  Claim C7. \<open>replicationFactorConfig\<close> is 1 for a replication factor of at most 0 and
  the configured factor otherwise; \<open>minInSyncConfig\<close> is 1 when that normalized factor
  is at most 1, else \<open>ReplicationFactor - 1\<close> when \<open>MinInSync\<close> reaches the normalized
  factor, else \<open>MinInSync\<close>.
\<close>

theorem replication_and_minInSync_normalization:
  "replicationFactorConfig s =
     (if ReplicationFactor (config s) \<le> 0 then 1 else ReplicationFactor (config s)) \<and>
   minInSyncConfig s =
     (if replicationFactorConfig s \<le> 1 then 1
      else if MinInSync (config s) \<ge> replicationFactorConfig s
        then ReplicationFactor (config s) - 1
      else MinInSync (config s))"
  by (simp add: replicationFactorConfig_def minInSyncConfig_def Let_def)

theorem replication_and_minInSync_normalization_witness:
  "replicationFactorConfig (newSource (exampleConfig\<lparr>ReplicationFactor := - 2\<rparr>)) = 1 \<and>
   minInSyncConfig (newSource (exampleConfig\<lparr>ReplicationFactor := - 2, MinInSync := 5\<rparr>)) = 1 \<and>
   replicationFactorConfig (newSource exampleConfig) = 3 \<and>
   minInSyncConfig (newSource (exampleConfig\<lparr>MinInSync := 5\<rparr>)) = 2 \<and>
   minInSyncConfig (newSource (exampleConfig\<lparr>MinInSync := 2\<rparr>)) = 2"
  using replication_and_minInSync_normalization
          [of "newSource (exampleConfig\<lparr>ReplicationFactor := - 2\<rparr>)"]
        replication_and_minInSync_normalization
          [of "newSource (exampleConfig\<lparr>ReplicationFactor := - 2, MinInSync := 5\<rparr>)"]
        replication_and_minInSync_normalization [of "newSource exampleConfig"]
        replication_and_minInSync_normalization
          [of "newSource (exampleConfig\<lparr>MinInSync := 5\<rparr>)"]
        replication_and_minInSync_normalization
          [of "newSource (exampleConfig\<lparr>MinInSync := 2\<rparr>)"]
  by (simp add: newSource_def exampleConfig_def)

text \<open>
  Claim C8. The commit log topic is \<open>gkes_commit_log_\<close> followed by the group id; the
  state store topic is the configured one when it is not empty, and otherwise
  \<open>gkes_change_log_\<close>, the topic, an underscore and the group id.
\<close>

theorem topic_names:
  "CommitLogTopicNameForGroupId s = ''gkes_commit_log_'' @ GroupId (config s) \<and>
   (StateStoreTopic (config s) \<noteq> [] \<longrightarrow> StateStoreTopicName s = StateStoreTopic (config s)) \<and>
   (StateStoreTopic (config s) = [] \<longrightarrow>
      StateStoreTopicName s = ''gkes_change_log_'' @ Topic (config s) @ ''_'' @ GroupId (config s))"
  by (simp add: CommitLogTopicNameForGroupId_def StateStoreTopicName_def)

theorem topic_names_witness:
  "CommitLogTopicNameForGroupId (newSource exampleConfig) = ''gkes_commit_log_grp'' \<and>
   StateStoreTopicName (newSource (exampleConfig\<lparr>StateStoreTopic := ''mine''\<rparr>)) = ''mine'' \<and>
   StateStoreTopicName (newSource exampleConfig) = ''gkes_change_log_orders_grp''"
  using topic_names [of "newSource exampleConfig"]
        topic_names [of "newSource (exampleConfig\<lparr>StateStoreTopic := ''mine''\<rparr>)"]
  by (simp add: newSource_def exampleConfig_def)

text \<open>
  Claim C9. With a replication factor above 1 and \<open>MinInSync\<close> strictly below it,
  \<open>minInSyncConfig\<close> returns \<open>MinInSync\<close> as it is, zero and negative values included:
  there is no lower clamp to 1 on this path.
\<close>

theorem minInSyncConfig_no_lower_clamp:
  "ReplicationFactor (config s) > 1 \<Longrightarrow> MinInSync (config s) < ReplicationFactor (config s)
     \<Longrightarrow> minInSyncConfig s = MinInSync (config s)"
  by (simp add: replicationFactorConfig_def minInSyncConfig_def Let_def)

theorem minInSyncConfig_no_lower_clamp_witness:
  "ReplicationFactor (config (newSource exampleConfig)) = 3 \<and>
   MinInSync (config (newSource exampleConfig)) = 0 \<and>
   minInSyncConfig (newSource exampleConfig) = 0"
  using minInSyncConfig_no_lower_clamp [of "newSource exampleConfig"]
  by (simp add: newSource_def exampleConfig_def)

text \<open>
  Claim C10. \<open>stateCluster\<close> returns \<open>config.SourceCluster\<close> when
  \<open>config.StateCluster\<close> is nil and \<open>config.StateCluster\<close> otherwise.
\<close>

theorem stateCluster_defaults_to_source:
  "(StateCluster (config s) = None \<longrightarrow> stateCluster s = SourceCluster (config s)) \<and>
   (StateCluster (config s) \<noteq> None \<longrightarrow> stateCluster s = StateCluster (config s))"
  by (simp add: stateCluster_def)

theorem stateCluster_defaults_to_source_witness:
  "stateCluster (newSource exampleConfig) = Some ''east'' \<and>
   stateCluster (newSource (exampleConfig\<lparr>StateCluster := Some ''west''\<rparr>)) = Some ''west''"
  using stateCluster_defaults_to_source [of "newSource exampleConfig"]
        stateCluster_defaults_to_source
          [of "newSource (exampleConfig\<lparr>StateCluster := Some ''west''\<rparr>)"]
  by (simp add: newSource_def exampleConfig_def)

section \<open>Properties of the partition worker\<close>

lemmas worker_defs =
  newPartitionWorker_def goDiv_def isRevoked_def revoke_def waiterAdd_def acquireToken_def
  releaseToken_def sendEvent_def sendInterjectionEvent_def addEventContext_def complete_def
  invokeCallback_def newEventContext_def newInterjectionContext_def add_def
  scheduleInterjection_def interleaveInterjection_def scheduleRecord_def scheduleStep_def
  scheduleTxnAndExecution_def processAsyncJob_def forwardToEventSource_def handleEvent_def
  dispatchEvent_def scheduleTxnAndExecutionEntry_def admittedOffsets_def Let_def

subsection \<open>What each function leaves alone\<close>


lemma processAsyncJob_keeps:
  "processAsyncJob job pw = Some pw' \<Longrightarrow>
     highestOffset pw' = highestOffset pw \<and> eventInput pw' = eventInput pw \<and>
     partitionInput pw' = partitionInput pw \<and> running pw' = running pw \<and>
     admitted pw' = admitted pw \<and> revocationWaiter pw' = revocationWaiter pw \<and>
     interjectionEventInput pw' = interjectionEventInput pw \<and>
     interjectionInput pw' = interjectionInput pw \<and> maxPending pw' \<le> maxPending pw"
  by (auto simp: processAsyncJob_def releaseToken_def complete_def split: if_splits)

lemma assignProducer_keeps:
  "assignProducer n pw = Some pw' \<Longrightarrow>
     highestOffset pw' = highestOffset pw \<and> eventInput pw' = eventInput pw \<and>
     partitionInput pw' = partitionInput pw \<and> running pw' = running pw \<and>
     admitted pw' = admitted pw \<and> revocationWaiter pw' = revocationWaiter pw \<and>
     interjectionEventInput pw' = interjectionEventInput pw \<and>
     interjectionInput pw' = interjectionInput pw \<and> maxPending pw' \<le> maxPending pw"
proof (induction n arbitrary: pw)
  case 0
  then show ?case by simp
next
  case (Suc n)
  then obtain job rest pw1 where j: "asyncJobs pw = job # rest"
    and p: "processAsyncJob job (pw\<lparr>asyncJobs := rest\<rparr>) = Some pw1"
    and a: "assignProducer n pw1 = Some pw'"
    by (auto simp: bind_eq_Some_conv split: list.splits)
  from processAsyncJob_keeps [OF p] Suc.IH [OF a] show ?case by simp
qed





lemma dispatchEvent_effect:
  assumes "dispatchEvent n producer result pw = Some pw'"
  shows "\<exists>ec rest. eventInput pw = ec # rest \<and> eventInput pw' = rest \<and>
     partitionInput pw' = partitionInput pw \<and> running pw' = running pw \<and>
     (highestOffset pw' = highestOffset pw \<or> highestOffset pw' = ecOffset ec + 1)"
proof -
  from assms obtain ec rest pw1 where e: "eventInput pw = ec # rest"
    and a: "assignProducer n (pw\<lparr>eventInput := rest\<rparr>) = Some pw1"
    and b: "(case producer of None \<Rightarrow> releaseToken pw1
        | Some p \<Rightarrow> let offset = ecOffset ec; pw2 = pw1\<lparr>highestOffset := offset + 1\<rparr>;
              pw3 = pw2\<lparr>handled := handled pw2 @ [ec]\<rparr>
          in if result = Complete then releaseToken (complete ec pw3) else Some pw3) = Some pw'"
    by (auto simp: dispatchEvent_def handleEvent_def forwardToEventSource_def bind_eq_Some_conv
          split: list.splits)
  from assignProducer_keeps [OF a]
  have k: "highestOffset pw1 = highestOffset pw" "eventInput pw1 = rest"
    "partitionInput pw1 = partitionInput pw" "running pw1 = running pw"
    by simp_all
  from b k have "eventInput pw' = rest \<and>
     partitionInput pw' = partitionInput pw \<and> running pw' = running pw \<and>
     (highestOffset pw' = highestOffset pw \<or> highestOffset pw' = ecOffset ec + 1)"
    by (auto simp: releaseToken_def complete_def Let_def split: option.splits if_splits)
  with e show ?thesis by blast
qed

subsection \<open>Executions that admit in order\<close>















subsection \<open>The executions of the duplicate suppression scenario\<close>

lemma scheduleStep_admit:
  "sint (highestOffset pw) \<le> sint (Offset r) \<Longrightarrow> maxPending pw < maxPendingCap pw \<Longrightarrow>
   length (eventInput pw) < eventInputCap pw \<Longrightarrow> interjectionInput pw = [] \<Longrightarrow>
   scheduleStep (Some r) pw =
     Some (pw\<lparr>maxPending := maxPending pw + 1, admitted := admitted pw @ [RecordContext r],
             eventInput := eventInput pw @ [RecordContext r]\<rparr>)"
  by (simp add: scheduleStep_def scheduleRecord_def acquireToken_def addEventContext_def
        sendEvent_def newEventContext_def interleaveInterjection_def Let_def)

lemma scheduleStep_drop:
  "sint (Offset r) < sint (highestOffset pw) \<Longrightarrow> interjectionInput pw = [] \<Longrightarrow>
   scheduleStep (Some r) pw = Some (pw\<lparr>revocationWaiter := revocationWaiter pw - 1\<rparr>)"
  by (simp add: scheduleStep_def scheduleRecord_def waiterAdd_def interleaveInterjection_def)

lemma dispatchEvent_producer:
  "eventInput pw = ec # rest \<Longrightarrow> 0 < maxPending pw \<Longrightarrow>
   dispatchEvent 0 (Some p) result pw =
     Some (pw\<lparr>eventInput := rest, highestOffset := ecOffset ec + 1,
             handled := handled pw @ [ec],
             completed := (if result = Complete then completed pw @ [ec] else completed pw),
             maxPending := (if result = Complete then maxPending pw - 1 else maxPending pw)\<rparr>)"
  by (cases "result = Complete")
     (simp_all add: dispatchEvent_def handleEvent_def forwardToEventSource_def releaseToken_def
        complete_def Let_def)

lemma dispatchEvent_nil:
  "eventInput pw = ec # rest \<Longrightarrow> 0 < maxPending pw \<Longrightarrow>
   dispatchEvent 0 None result pw =
     Some (pw\<lparr>eventInput := rest, maxPending := maxPending pw - 1\<rparr>)"
  by (simp add: dispatchEvent_def handleEvent_def forwardToEventSource_def releaseToken_def)

lemma original_record:
  assumes "i < 3"
  shows "\<exists>r. drop i duplicateBatch = Some r # drop (Suc i) duplicateBatch \<and>
           take (Suc i) originals = take i originals @ [RecordContext r] \<and>
           sint (Offset r) = 5 + int i"
proof -
  from assms have "i = 0 \<or> i = 1 \<or> i = 2" by arith
  then show ?thesis by (elim disjE) (simp_all add: duplicateBatch_def originals_def)
qed

lemma copy_record:
  assumes "3 \<le> i" "i < 6"
  shows "\<exists>r. drop i duplicateBatch = Some r # drop (Suc i) duplicateBatch \<and>
           sint (Offset r) = 2 + int i"
proof -
  from assms have "i = 3 \<or> i = 4 \<or> i = 5" by arith
  then show ?thesis by (elim disjE) (simp_all add: duplicateBatch_def)
qed

lemma original_context:
  assumes "j < 3"
  shows "\<exists>ec. drop j originals = ec # drop (Suc j) originals \<and> sint (ecOffset ec + 1) = 6 + int j"
proof -
  from assms have "j = 0 \<or> j = 1 \<or> j = 2" by arith
  then show ?thesis by (elim disjE) (simp_all add: originals_def)
qed

lemma scenario_Schedule:
  assumes s: "scenario m i j k (pw, pending)" and m: "3 \<le> m" and i: "i < 6"
    and c: "3 \<le> i \<longrightarrow> i < k + 3"
  shows "\<exists>s'. step Schedule (pw, pending) = Some s' \<and> scenario m (Suc i) j k s'"
proof (cases "i < 3")
  case True
  from original_record [OF True] obtain r
    where r: "drop i duplicateBatch = Some r # drop (Suc i) duplicateBatch"
      "take (Suc i) originals = take i originals @ [RecordContext r]"
      "sint (Offset r) = 5 + int i" by blast
  from s True r(3) have a: "sint (highestOffset pw) \<le> sint (Offset r)"
    "maxPending pw < maxPendingCap pw" "length (eventInput pw) < eventInputCap pw"
    "interjectionInput pw = []"
    using m by (auto simp: scenario_def originals_def split: if_splits)
  from s True have l: "length (take i originals) = i" "j \<le> i"
    by (simp_all add: scenario_def originals_def)
  from s r(1) have "step Schedule (pw, pending) =
      Some (pw\<lparr>maxPending := maxPending pw + 1, admitted := admitted pw @ [RecordContext r],
                eventInput := eventInput pw @ [RecordContext r]\<rparr>, drop (Suc i) duplicateBatch)"
    by (simp add: scenario_def scheduleStep_admit [OF a])
  moreover from s True r(2) l
  have "scenario m (Suc i) j k
      (pw\<lparr>maxPending := maxPending pw + 1, admitted := admitted pw @ [RecordContext r],
           eventInput := eventInput pw @ [RecordContext r]\<rparr>, drop (Suc i) duplicateBatch)"
    by (auto simp: scenario_def)
  ultimately show ?thesis by blast
next
  case False
  with i have b: "3 \<le> i" "i < 6" by simp_all
  from copy_record [OF b] obtain r
    where r: "drop i duplicateBatch = Some r # drop (Suc i) duplicateBatch"
      "sint (Offset r) = 2 + int i" by blast
  from s b c r(2) have a: "sint (Offset r) < sint (highestOffset pw)" "interjectionInput pw = []"
    by (auto simp: scenario_def split: if_splits)
  from s r(1) have "step Schedule (pw, pending) =
      Some (pw\<lparr>revocationWaiter := revocationWaiter pw - 1\<rparr>, drop (Suc i) duplicateBatch)"
    by (simp add: scenario_def scheduleStep_drop [OF a])
  moreover from s b c
  have "scenario m (Suc i) j k
      (pw\<lparr>revocationWaiter := revocationWaiter pw - 1\<rparr>, drop (Suc i) duplicateBatch)"
    by (auto simp: scenario_def originals_def)
  ultimately show ?thesis by blast
qed

lemma scenario_Dispatch:
  assumes s: "scenario m i j k (pw, pending)" and j: "j < i" "j < 3"
  shows "\<exists>s'. step (Dispatch 0 producer result) (pw, pending) = Some s' \<and>
           scenario m i (Suc j) (if producer = None then k else Suc j) s'"
proof -
  from original_context [OF j(2)] obtain ec
    where ec: "drop j originals = ec # drop (Suc j) originals"
      "sint (ecOffset ec + 1) = 6 + int j" by blast
  from s have "eventInput pw = take (i - j) (drop j originals)"
    by (simp add: scenario_def drop_take)
  with ec(1) j have e: "eventInput pw = ec # drop (Suc j) (take i originals)"
    by (simp add: take_Cons' drop_take)
  from s j have t: "0 < maxPending pw" by (auto simp: scenario_def)
  show ?thesis
  proof (cases producer)
    case None
    from s j have "scenario m i (Suc j) k
        (pw\<lparr>eventInput := drop (Suc j) (take i originals), maxPending := maxPending pw - 1\<rparr>,
         pending)"
      by (auto simp: scenario_def)
    with None show ?thesis by (simp add: dispatchEvent_nil [OF e t])
  next
    case (Some p)
    from s j ec(2) have "scenario m i (Suc j) (Suc j)
        (pw\<lparr>eventInput := drop (Suc j) (take i originals), highestOffset := ecOffset ec + 1,
             handled := handled pw @ [ec],
             completed := (if result = Complete then completed pw @ [ec] else completed pw),
             maxPending := (if result = Complete then maxPending pw - 1 else maxPending pw)\<rparr>,
         pending)"
      by (auto simp: scenario_def)
    with Some show ?thesis by (simp add: dispatchEvent_producer [OF e t])
  qed
qed

lemma scenario_run:
  "scenario m i j k s \<Longrightarrow> 3 \<le> m \<Longrightarrow> copiesAfterOriginals i j k as \<Longrightarrow>
   \<exists>s'. run as s = Some s' \<and> scenario m 6 3 3 s'"
proof (induction as arbitrary: i j k s)
  case Nil
  then show ?case by (auto simp: scenario_def)
next
  case (Cons a as)
  obtain pw pending where s: "s = (pw, pending)" by (cases s)
  show ?case
  proof (cases a)
    case Schedule
    with Cons.prems(3) have c: "i < 6" "3 \<le> i \<longrightarrow> i < k + 3"
      and r: "copiesAfterOriginals (Suc i) j k as" by simp_all
    from scenario_Schedule [OF Cons.prems(1) [unfolded s] Cons.prems(2) c]
    obtain s1 where s1: "step Schedule (pw, pending) = Some s1" "scenario m (Suc i) j k s1"
      by blast
    from s1(1) s Schedule have "run (a # as) s = run as s1" by (simp del: step.simps)
    with Cons.IH [OF s1(2) Cons.prems(2) r] show ?thesis by simp
  next
    case (Dispatch n producer result)
    with Cons.prems(3) have c: "n = 0" "j < i" "j < 3"
      and r: "copiesAfterOriginals i (Suc j) (if producer = None then k else Suc j) as"
      by simp_all
    from scenario_Dispatch [OF Cons.prems(1) [unfolded s] c(2,3), of producer result]
    obtain s1 where s1: "step (Dispatch 0 producer result) (pw, pending) = Some s1"
      "scenario m i (Suc j) (if producer = None then k else Suc j) s1"
      by blast
    from s1(1) s Dispatch c have "run (a # as) s = run as s1" by (simp del: step.simps)
    with Cons.IH [OF s1(2) Cons.prems(2) r] show ?thesis by simp
  qed (use Cons.prems(3) in simp_all)
qed

lemma scenario_start:
  "scenario m 0 0 0 (scheduleTxnAndExecutionEntry duplicateBatch (newPartitionWorker m b))"
  by (simp add: scenario_def scheduleTxnAndExecutionEntry_def newPartitionWorker_def
        isRevoked_def waiterAdd_def duplicateBatch_def Let_def)

subsection \<open>The functions as executions\<close>

lemma scheduleLoop_run:
  "run (replicate (length rs) Schedule) (pw, rs) = map_option (\<lambda>pw'. (pw', [])) (scheduleLoop rs pw)"
proof (induction rs arbitrary: pw)
  case Nil
  show ?case by simp
next
  case (Cons r rs)
  show ?case by (cases "scheduleStep r pw") (simp_all add: Cons.IH)
qed

lemma scheduleTxnAndExecution_run:
  "map_option (\<lambda>pw'. (pw', [])) (scheduleTxnAndExecution records pw) =
     run (replicate (length (snd (scheduleTxnAndExecutionEntry records pw))) Schedule)
       (scheduleTxnAndExecutionEntry records pw)"
  by (simp add: scheduleTxnAndExecution_def scheduleTxnAndExecutionEntry_def scheduleLoop_run)

subsection \<open>Executions from a revoked worker\<close>

lemma dispatchEvent_keeps:
  assumes "dispatchEvent n producer result pw = Some pw'"
  shows "running pw' = running pw \<and> admitted pw' = admitted pw \<and>
     revocationWaiter pw' = revocationWaiter pw \<and>
     interjectionEventInput pw' = interjectionEventInput pw \<and>
     partitionInput pw' = partitionInput pw \<and> maxPending pw' \<le> maxPending pw"
proof -
  from assms obtain ec rest pw1 where e: "eventInput pw = ec # rest"
    and a: "assignProducer n (pw\<lparr>eventInput := rest\<rparr>) = Some pw1"
    and b: "(case producer of None \<Rightarrow> releaseToken pw1
        | Some p \<Rightarrow> let offset = ecOffset ec; pw2 = pw1\<lparr>highestOffset := offset + 1\<rparr>;
              pw3 = pw2\<lparr>handled := handled pw2 @ [ec]\<rparr>
          in if result = Complete then releaseToken (complete ec pw3) else Some pw3) = Some pw'"
    by (auto simp: dispatchEvent_def handleEvent_def forwardToEventSource_def bind_eq_Some_conv
          split: list.splits)
  from assignProducer_keeps [OF a]
  have k: "running pw1 = running pw" "admitted pw1 = admitted pw"
    "revocationWaiter pw1 = revocationWaiter pw"
    "interjectionEventInput pw1 = interjectionEventInput pw"
    "partitionInput pw1 = partitionInput pw" "maxPending pw1 \<le> maxPending pw"
    by simp_all
  from b k show ?thesis
    by (auto simp: releaseToken_def complete_def Let_def split: option.splits if_splits)
qed



lemma workerHoldingOne_reached:
  "scheduleTxnAndExecution [Some \<lparr>Offset = 5\<rparr>] (newPartitionWorker 8 100) =
     Some (workerHoldingOne\<lparr>eventInput := [RecordContext \<lparr>Offset = 5\<rparr>]\<rparr>)"
  by (simp add: workerHoldingOne_def worker_defs)

subsection \<open>The converse for the scenario\<close>

lemma scheduleStep_admitted:
  assumes "scheduleStep (Some r) pw = Some pw1" and "sint (highestOffset pw) \<le> sint (Offset r)"
  shows "maxPending pw < maxPendingCap pw \<and> length (eventInput pw) < eventInputCap pw"
  using assms
  by (auto simp: scheduleStep_def scheduleRecord_def acquireToken_def addEventContext_def
        sendEvent_def Let_def bind_eq_Some_conv split: if_splits)

lemma scheduleInterjection_grows:
  "scheduleInterjection ij pw = Some pw' \<Longrightarrow> length (admitted pw) \<le> length (admitted pw')"
  by (auto simp: scheduleInterjection_def invokeCallback_def waiterAdd_def acquireToken_def
        addEventContext_def sendInterjectionEvent_def Let_def bind_eq_Some_conv
      split: if_splits option.splits)

lemma interleaveInterjection_grows:
  "interleaveInterjection pw = Some pw' \<Longrightarrow> length (admitted pw) \<le> length (admitted pw')"
  by (auto simp: interleaveInterjection_def split: list.splits dest: scheduleInterjection_grows)

lemma scheduleRecord_grows:
  "scheduleRecord rcd pw = Some pw' \<Longrightarrow> length (admitted pw) \<le> length (admitted pw')"
  by (auto simp: scheduleRecord_def waiterAdd_def acquireToken_def addEventContext_def
        sendEvent_def Let_def bind_eq_Some_conv split: if_splits option.splits)

lemma scheduleStep_grows:
  assumes "scheduleStep rcd pw = Some pw'"
  shows "length (admitted pw) \<le> length (admitted pw')"
proof -
  from assms obtain pw0 where a: "scheduleRecord rcd pw = Some pw0"
    and b: "interleaveInterjection pw0 = Some pw'"
    by (auto simp: scheduleStep_def bind_eq_Some_conv)
  from scheduleRecord_grows [OF a] interleaveInterjection_grows [OF b] show ?thesis by simp
qed

lemma admitted_step:
  assumes "step a s = Some s'"
  shows "length (admitted (fst s)) \<le> length (admitted (fst s'))"
proof -
  obtain pw pending where s: "s = (pw, pending)" by (cases s)
  show ?thesis
  proof (cases a)
    case (Offer records)
    with assms s show ?thesis by (auto simp: add_def split: if_splits)
  next
    case Receive
    with assms s show ?thesis
      by (auto simp: scheduleTxnAndExecutionEntry_def waiterAdd_def Let_def
            split: list.splits if_splits)
  next
    case Interject
    with assms s obtain ij rest pw' where
      i: "scheduleInterjection ij (pw\<lparr>interjectionInput := rest\<rparr>) = Some pw'"
      and s': "s' = (pw', [])"
      by (auto split: list.splits)
    from scheduleInterjection_grows [OF i] s s' show ?thesis by simp
  next
    case Schedule
    with assms s obtain rcd rest pw' where st: "scheduleStep rcd pw = Some pw'"
      and s': "s' = (pw', rest)"
      by (auto split: list.splits)
    from scheduleStep_grows [OF st] s s' show ?thesis by simp
  next
    case (Dispatch n producer result)
    with assms s obtain pw' where d: "dispatchEvent n producer result pw = Some pw'"
      and s': "s' = (pw', pending)" by auto
    from dispatchEvent_keeps [OF d] s s' show ?thesis by simp
  next
    case Halt
    with assms s show ?thesis by (auto simp: revoke_def)
  qed
qed

lemma admitted_run:
  "run as s = Some s' \<Longrightarrow> length (admitted (fst s)) \<le> length (admitted (fst s'))"
proof (induction as arbitrary: s)
  case Nil
  then show ?case by simp
next
  case (Cons a as)
  from Cons.prems obtain s1 where s1: "step a s = Some s1" and r: "run as s1 = Some s'"
    by (auto simp: bind_eq_Some_conv)
  from admitted_step [OF s1] Cons.IH [OF r] show ?case by simp
qed

lemma scenario_Schedule_taken:
  assumes s: "scenario m i j k (pw, pending)" and st: "step Schedule (pw, pending) = Some s1"
  shows "i < 6 \<and> ((3 \<le> i \<longrightarrow> i < k + 3) \<longrightarrow> scenario m (Suc i) j k s1) \<and>
     (3 \<le> i \<and> k + 3 \<le> i \<longrightarrow> length (admitted (fst s1)) = 4)"
proof -
  from s st have i: "i < 6"
    by (cases "i = 6") (auto simp: scenario_def duplicateBatch_def)
  show ?thesis
  proof (cases "i < 3")
    case True
    from original_record [OF True] obtain r
      where r: "drop i duplicateBatch = Some r # drop (Suc i) duplicateBatch"
        "take (Suc i) originals = take i originals @ [RecordContext r]"
        "sint (Offset r) = 5 + int i" by blast
    from s True r(3) have h: "sint (highestOffset pw) \<le> sint (Offset r)"
      "interjectionInput pw = []"
      by (auto simp: scenario_def split: if_splits)
    from s st r(1) obtain pw1 where p: "scheduleStep (Some r) pw = Some pw1"
      by (auto simp: scenario_def)
    from scheduleStep_admitted [OF p h(1)] have a: "maxPending pw < maxPendingCap pw"
      "length (eventInput pw) < eventInputCap pw" by simp_all
    from s r(1) st have e: "s1 =
        (pw\<lparr>maxPending := maxPending pw + 1, admitted := admitted pw @ [RecordContext r],
             eventInput := eventInput pw @ [RecordContext r]\<rparr>, drop (Suc i) duplicateBatch)"
      by (simp add: scenario_def scheduleStep_admit [OF h(1) a h(2)])
    from s True have l: "length (take i originals) = i" "j \<le> i"
      by (simp_all add: scenario_def originals_def)
    from s True r(2) l a
    have "scenario m (Suc i) j k
        (pw\<lparr>maxPending := maxPending pw + 1, admitted := admitted pw @ [RecordContext r],
             eventInput := eventInput pw @ [RecordContext r]\<rparr>, drop (Suc i) duplicateBatch)"
      by (auto simp: scenario_def)
    with e i True show ?thesis by simp
  next
    case False
    with i have b: "3 \<le> i" "i < 6" by simp_all
    from copy_record [OF b] obtain r
      where r: "drop i duplicateBatch = Some r # drop (Suc i) duplicateBatch"
        "sint (Offset r) = 2 + int i" by blast
    from s have f: "interjectionInput pw = []" "admitted pw = originals"
      using b by (simp_all add: scenario_def originals_def)
    from s st r(1) obtain pw1 where p: "scheduleStep (Some r) pw = Some pw1"
      and s1: "s1 = (pw1, drop (Suc i) duplicateBatch)"
      by (auto simp: scenario_def)
    have "scenario m (Suc i) j k s1" if c: "i < k + 3"
    proof -
      from s b c r(2) have a: "sint (Offset r) < sint (highestOffset pw)"
        by (auto simp: scenario_def split: if_splits)
      from p s1 have "s1 =
          (pw\<lparr>revocationWaiter := revocationWaiter pw - 1\<rparr>, drop (Suc i) duplicateBatch)"
        by (simp add: scheduleStep_drop [OF a f(1)])
      moreover from s b c
      have "scenario m (Suc i) j k
          (pw\<lparr>revocationWaiter := revocationWaiter pw - 1\<rparr>, drop (Suc i) duplicateBatch)"
        by (auto simp: scenario_def originals_def)
      ultimately show ?thesis by simp
    qed
    moreover have "length (admitted (fst s1)) = 4" if c: "k + 3 \<le> i"
    proof -
      from s b c r(2) have h: "sint (highestOffset pw) \<le> sint (Offset r)"
        by (auto simp: scenario_def split: if_splits)
      from scheduleStep_admitted [OF p h] have a: "maxPending pw < maxPendingCap pw"
        "length (eventInput pw) < eventInputCap pw" by simp_all
      from p have "pw1 =
          pw\<lparr>maxPending := maxPending pw + 1, admitted := admitted pw @ [RecordContext r],
             eventInput := eventInput pw @ [RecordContext r]\<rparr>"
        by (simp add: scheduleStep_admit [OF h a f(1)])
      with s1 f(2) show ?thesis by (simp add: originals_def)
    qed
    ultimately show ?thesis using i b by auto
  qed
qed

lemma scenario_Dispatch_taken:
  assumes s: "scenario m i j k (pw, pending)"
    and st: "step (Dispatch n producer result) (pw, pending) = Some s1"
  shows "n = 0 \<and> j < i \<and> j < 3 \<and>
     scenario m i (Suc j) (if producer = None then k else Suc j) s1"
proof -
  from st obtain pw1 where d: "dispatchEvent n producer result pw = Some pw1" by auto
  from dispatchEvent_effect [OF d] obtain ec rest where e: "eventInput pw = ec # rest" by blast
  moreover from s have "length (eventInput pw) = min i 3 - j"
    by (simp add: scenario_def originals_def)
  ultimately have j: "j < i" "j < 3" by simp_all
  from s have "asyncJobs pw = []" by (simp add: scenario_def)
  then have "dispatchEvent (Suc n') producer result pw = None" for n'
    by (simp add: dispatchEvent_def handleEvent_def forwardToEventSource_def split: list.splits)
  with d have n: "n = 0" by (cases n) simp_all
  from scenario_Dispatch [OF s j, of producer result] st n j show ?thesis by auto
qed

lemma scenario_converse:
  "scenario m i j k s \<Longrightarrow> \<forall>a \<in> set as. isLoopOrDispatch a \<Longrightarrow>
   run as s = Some (pw', []) \<Longrightarrow> eventInput pw' = [] \<Longrightarrow> length (admitted pw') = 3 \<Longrightarrow>
   copiesAfterOriginals i j k as"
proof (induction as arbitrary: i j k s)
  case Nil
  then have "i = 6" "j = 3"
    by (auto simp: scenario_def duplicateBatch_def originals_def)
  then show ?case by simp
next
  case (Cons a as)
  obtain pw pending where s: "s = (pw, pending)" by (cases s)
  from Cons.prems(3) obtain s1 where s1: "step a s = Some s1" and r: "run as s1 = Some (pw', [])"
    by (auto simp: bind_eq_Some_conv)
  from Cons.prems(2) have l: "\<forall>a \<in> set as. isLoopOrDispatch a" by simp
  show ?case
  proof (cases a)
    case Schedule
    from scenario_Schedule_taken [OF Cons.prems(1) [unfolded s] s1 [unfolded s Schedule]]
    have t: "i < 6" "(3 \<le> i \<longrightarrow> i < k + 3) \<longrightarrow> scenario m (Suc i) j k s1"
      "3 \<le> i \<and> k + 3 \<le> i \<longrightarrow> length (admitted (fst s1)) = 4" by simp_all
    have c: "3 \<le> i \<longrightarrow> i < k + 3"
    proof (rule ccontr)
      assume "\<not> (3 \<le> i \<longrightarrow> i < k + 3)"
      with t(3) have "length (admitted (fst s1)) = 4" by simp
      with admitted_run [OF r] Cons.prems(5) show False by simp
    qed
    with t(2) have "scenario m (Suc i) j k s1" by simp
    from Cons.IH [OF this l r Cons.prems(4,5)] t(1) c Schedule show ?thesis by simp
  next
    case (Dispatch n producer result)
    from scenario_Dispatch_taken [OF Cons.prems(1) [unfolded s] s1 [unfolded s Dispatch]]
    have t: "n = 0" "j < i" "j < 3"
      "scenario m i (Suc j) (if producer = None then k else Suc j) s1" by simp_all
    from Cons.IH [OF t(4) l r Cons.prems(4,5)] t(1,2,3) Dispatch show ?thesis by simp
  qed (use Cons.prems(2) in simp_all)
qed

lemma workerAtSix_reached:
  "scheduleTxnAndExecution [Some \<lparr>Offset = 5\<rparr>] (newPartitionWorker 8 100)
     \<bind> dispatchEvent 0 (Some 1) Incomplete = Some workerAtSix"
  by (simp add: workerAtSix_def workerHoldingOne_def worker_defs)

subsection \<open>The duplicate suppression scenario\<close>

text \<open>
  Claim C1, with the conditions under which it holds. The batch with offsets
  5, 6, 7, 5, 6, 7 is delivered to \<open>scheduleTxnAndExecution\<close> on a fresh worker
  (\<open>highestOffset\<close> is -1, \<open>revocationWaiter\<close> is 0) whose pool allows at least three
  pending items, whatever \<open>MaxBatchSize\<close> is. Take any interleaving of the six turns of
  the loop with the dispatches of the contexts in which, before the second copy of a
  record is inspected, the context of its first copy or of a later record has been
  handled with a producer that is not nil; the handler may return anything. Then the
  execution goes through, exactly the three contexts of offsets 5, 6 and 7 are created
  and admitted to the producer pool, \<open>highestOffset\<close> ends at 8 and \<open>revocationWaiter\<close>
  has gone up by 3. Conversely, an execution made of turns of the loop and of dispatches
  that goes through the batch, handles every context and admits exactly these three, on
  a fresh worker of any size, is such an interleaving.
\<close>

theorem duplicateBatch_three_admissions:
  "(3 \<le> m \<and> copiesAfterOriginals 0 0 0 as \<longrightarrow>
      (\<exists>pw'. run as (scheduleTxnAndExecutionEntry duplicateBatch (newPartitionWorker m b))
                = Some (pw', []) \<and>
         admittedOffsets pw' = [5, 6, 7] \<and> eventInput pw' = [] \<and> highestOffset pw' = 8 \<and>
         revocationWaiter pw' = revocationWaiter (newPartitionWorker m b) + 3)) \<and>
   ((\<forall>a \<in> set cs. isLoopOrDispatch a) \<and>
    run cs (scheduleTxnAndExecutionEntry duplicateBatch (newPartitionWorker ma ba))
      = Some (pwc, []) \<and>
    eventInput pwc = [] \<and> admittedOffsets pwc = [5, 6, 7] \<longrightarrow>
      copiesAfterOriginals 0 0 0 cs)"
proof (intro conjI impI)
  assume a: "3 \<le> m \<and> copiesAfterOriginals 0 0 0 as"
  then have m: "3 \<le> m" and c: "copiesAfterOriginals 0 0 0 as" by simp_all
  from scenario_run [OF scenario_start m c]
  obtain s' where r: "run as (scheduleTxnAndExecutionEntry duplicateBatch (newPartitionWorker m b))
      = Some s'" and f: "scenario m 6 3 3 s'"
    by blast
  obtain pw' pending where s': "s' = (pw', pending)" by (cases s')
  from f s' have "sint (highestOffset pw') = sint (8 :: int64)" by (simp add: scenario_def)
  then have "highestOffset pw' = 8" by (rule signed_word_eqI)
  moreover from f s' have "pending = []" "admittedOffsets pw' = [5, 6, 7]"
    "eventInput pw' = []" "revocationWaiter pw' = 3"
    by (simp_all add: scenario_def duplicateBatch_def originals_def admittedOffsets_def)
  ultimately show "\<exists>pw'. run as (scheduleTxnAndExecutionEntry duplicateBatch (newPartitionWorker m b))
                = Some (pw', []) \<and>
         admittedOffsets pw' = [5, 6, 7] \<and> eventInput pw' = [] \<and> highestOffset pw' = 8 \<and>
         revocationWaiter pw' = revocationWaiter (newPartitionWorker m b) + 3"
    using r s' by (simp add: newPartitionWorker_def Let_def)
next
  assume a: "(\<forall>a \<in> set cs. isLoopOrDispatch a) \<and>
    run cs (scheduleTxnAndExecutionEntry duplicateBatch (newPartitionWorker ma ba))
      = Some (pwc, []) \<and>
    eventInput pwc = [] \<and> admittedOffsets pwc = [5, 6, 7]"
  then have "length (admitted pwc) = length [5 :: int64, 6, 7]"
    by (simp add: admittedOffsets_def flip: length_map [of ecOffset])
  then have "length (admitted pwc) = 3" by simp
  with a show "copiesAfterOriginals 0 0 0 cs"
    by (intro scenario_converse [OF scenario_start [of ma ba], where pw' = pwc]) simp_all
qed

theorem duplicateBatch_three_admissions_witness:
  "(3 :: nat) \<le> 3 \<and> copiesAfterOriginals 0 0 0 exampleExecution \<and>
   list_all isLoopOrDispatch exampleExecution \<and>
   (\<exists>pw'. run exampleExecution
             (scheduleTxnAndExecutionEntry duplicateBatch (newPartitionWorker 3 100))
             = Some (pw', []) \<and>
          admittedOffsets pw' = [5, 6, 7] \<and> eventInput pw' = [] \<and> highestOffset pw' = 8 \<and>
          revocationWaiter pw' = 3)"
proof -
  have m: "(3 :: nat) \<le> 3" by simp
  have c: "copiesAfterOriginals 0 0 0 exampleExecution" by (simp add: exampleExecution_def)
  have l: "\<forall>a \<in> set exampleExecution. isLoopOrDispatch a" by (simp add: exampleExecution_def)
  have "revocationWaiter (newPartitionWorker 3 100) = 0"
    by (simp add: newPartitionWorker_def Let_def)
  with duplicateBatch_three_admissions [of 3 exampleExecution 100] m c l show ?thesis
    by (simp add: list_all_iff)
qed

text \<open>
  Without the condition on the interleaving the scenario fails. \<open>highestOffset\<close> is
  written by the dispatch loop only: on a worker of 8 pending items, while no context of
  the batch has been handled it is still -1 when the second 5, 6 and 7 are inspected, so
  all six records are admitted and \<open>revocationWaiter\<close> goes up by 6; handling the six
  contexts afterwards leaves \<open>highestOffset\<close> at 8.
\<close>

theorem duplicateBatch_all_admitted_when_dispatch_lags:
  "map_option admittedOffsets
     (scheduleTxnAndExecution duplicateBatch (newPartitionWorker 8 100)) = Some [5, 6, 7, 5, 6, 7] \<and>
   map_option revocationWaiter
     (scheduleTxnAndExecution duplicateBatch (newPartitionWorker 8 100)) = Some 6 \<and>
   map_option highestOffset
     (scheduleTxnAndExecution duplicateBatch (newPartitionWorker 8 100)) = Some (- 1) \<and>
   revocationWaiter (newPartitionWorker 8 100) = 0 \<and>
   map_option admittedOffsets (map_option fst
     (run [Schedule, Schedule, Schedule, Schedule, Schedule, Schedule,
           Dispatch 0 (Some 1) Complete, Dispatch 0 (Some 1) Complete,
           Dispatch 0 (Some 1) Complete, Dispatch 0 (Some 1) Complete,
           Dispatch 0 (Some 1) Complete, Dispatch 0 (Some 1) Complete]
        (scheduleTxnAndExecutionEntry duplicateBatch (newPartitionWorker 8 100))))
     = Some [5, 6, 7, 5, 6, 7] \<and>
   map_option highestOffset (map_option fst
     (run [Schedule, Schedule, Schedule, Schedule, Schedule, Schedule,
           Dispatch 0 (Some 1) Complete, Dispatch 0 (Some 1) Complete,
           Dispatch 0 (Some 1) Complete, Dispatch 0 (Some 1) Complete,
           Dispatch 0 (Some 1) Complete, Dispatch 0 (Some 1) Complete]
        (scheduleTxnAndExecutionEntry duplicateBatch (newPartitionWorker 8 100))))
     = Some 8 \<and>
   map_option revocationWaiter (map_option fst
     (run [Schedule, Schedule, Schedule, Schedule, Schedule, Schedule,
           Dispatch 0 (Some 1) Complete, Dispatch 0 (Some 1) Complete,
           Dispatch 0 (Some 1) Complete, Dispatch 0 (Some 1) Complete,
           Dispatch 0 (Some 1) Complete, Dispatch 0 (Some 1) Complete]
        (scheduleTxnAndExecutionEntry duplicateBatch (newPartitionWorker 8 100))))
     = Some 6"
  by code_simp

subsection \<open>Writes of \<open>highestOffset\<close> and stale records\<close>




subsection \<open>After the halt\<close>




subsection \<open>Handling an event\<close>

text \<open>
  Claim C4. \<open>handleEvent\<close> first waits for the producer assignment, which leaves
  \<open>highestOffset\<close> as it was; \<open>pw1\<close> is the worker when the producer arrives, and the
  context holds one of its tokens. If the producer is nil, \<open>handleEvent\<close> releases one
  \<open>maxPending\<close> token and changes nothing else, \<open>highestOffset\<close> included. Otherwise
  it sets \<open>highestOffset\<close> to the offset of the context plus one and invokes the user's
  handler; when the handler returns \<open>Complete\<close> it marks the context complete and
  releases one token, and on any other result it does neither.
\<close>

theorem handleEvent_after_producer_assignment:
  assumes w: "assignProducer n pw = Some pw1" and t: "0 < maxPending pw1"
  shows "highestOffset pw1 = highestOffset pw \<and>
     handleEvent n None result ec pw = Some (pw1\<lparr>maxPending := maxPending pw1 - 1\<rparr>, True) \<and>
     handleEvent n (Some p) Complete ec pw =
       Some (pw1\<lparr>maxPending := maxPending pw1 - 1, highestOffset := ecOffset ec + 1,
                 handled := handled pw1 @ [ec], completed := completed pw1 @ [ec]\<rparr>, True) \<and>
     (result \<noteq> Complete \<longrightarrow>
        handleEvent n (Some p) result ec pw =
          Some (pw1\<lparr>highestOffset := ecOffset ec + 1, handled := handled pw1 @ [ec]\<rparr>, True))"
  using assignProducer_keeps [OF w] w t
  by (simp add: handleEvent_def forwardToEventSource_def releaseToken_def complete_def Let_def)

theorem handleEvent_after_producer_assignment_witness:
  "assignProducer 0 workerHoldingOne = Some workerHoldingOne \<and>
   maxPending workerHoldingOne = 1 \<and>
   handleEvent 0 None Incomplete (RecordContext \<lparr>Offset = 5\<rparr>) workerHoldingOne =
     Some (workerHoldingOne\<lparr>maxPending := 0\<rparr>, True) \<and>
   handleEvent 0 (Some 1) Complete (RecordContext \<lparr>Offset = 5\<rparr>) workerHoldingOne =
     Some (workerHoldingOne\<lparr>maxPending := 0, highestOffset := 6,
             handled := [RecordContext \<lparr>Offset = 5\<rparr>],
             completed := [RecordContext \<lparr>Offset = 5\<rparr>]\<rparr>, True) \<and>
   handleEvent 0 (Some 1) Incomplete (RecordContext \<lparr>Offset = 5\<rparr>) workerHoldingOne =
     Some (workerHoldingOne\<lparr>highestOffset := 6, handled := [RecordContext \<lparr>Offset = 5\<rparr>]\<rparr>, True)"
  using handleEvent_after_producer_assignment
          [of 0 workerHoldingOne workerHoldingOne Incomplete "RecordContext \<lparr>Offset = 5\<rparr>" 1]
  by (simp add: workerHoldingOne_def worker_defs)

end
